theory Spec2Isabelle
  imports Complex_Main
begin

section \<open>Data model\<close>

text \<open>
  The package \<^verbatim>\<open>dist\<close> stores a PHYLIP distance matrix in a \<^verbatim>\<open>DistMat\<close> and reads
  it with a \<^verbatim>\<open>Scanner\<close>.

  Modelling decisions.
  \<^item> A \<^verbatim>\<open>float64\<close> is a finite number, the negative zero, an infinity or NaN, with Go's
    comparisons; the sum and the quotient round with a rounding function that is a
    parameter of the model.
  \<^item> For \<^verbatim>\<open>Delete\<close>, \<^verbatim>\<open>DeletePair\<close>, \<^verbatim>\<open>Min\<close>, \<^verbatim>\<open>Max\<close>, \<^verbatim>\<open>String\<close> and \<^verbatim>\<open>Scan\<close> a slice is
    the list of its elements, each row with a backing array of its own. For \<^verbatim>\<open>Append\<close>
    and \<^verbatim>\<open>MakeSymmetrical\<close> a row is a slice header on a backing array in a memory of
    arrays, so that two slices may share an array and \<^verbatim>\<open>append\<close> may write in place.
  \<^item> A method that mutates its receiver returns the receiver's state at the end of the
    call together with \<open>None\<close> (the call returned) or \<open>Some e\<close> (the call stopped in
    \<^verbatim>\<open>log.Fatalf\<close> or in a run-time panic).
\<close>

subsection \<open>float64\<close>

text \<open>
  \<open>Finite x\<close> is the float of value \<open>x\<close>, with \<open>Finite 0\<close> the positive zero. The type
  does not restrict \<open>x\<close> to the numbers that \<^verbatim>\<open>float64\<close> represents: what holds for every
  value of the type holds for every float. All NaNs are one value.
\<close>

datatype float64 = Finite real | NegZero | PosInf | NegInf | NaN

fun number :: "float64 \<Rightarrow> real" where
  "number (Finite x) = x"
| "number _ = 0"

text \<open>Go's \<^verbatim>\<open>a < b\<close> and \<^verbatim>\<open>a == b\<close> on \<^verbatim>\<open>float64\<close>: false as soon as one side is NaN.\<close>

fun flt :: "float64 \<Rightarrow> float64 \<Rightarrow> bool" where
  "flt NaN b = False"
| "flt a NaN = False"
| "flt PosInf b = False"
| "flt a NegInf = False"
| "flt NegInf b = True"
| "flt a PosInf = True"
| "flt a b = (number a < number b)"

fun feq :: "float64 \<Rightarrow> float64 \<Rightarrow> bool" where
  "feq NaN b = False"
| "feq a NaN = False"
| "feq PosInf b = (b = PosInf)"
| "feq a PosInf = False"
| "feq NegInf b = (b = NegInf)"
| "feq a NegInf = False"
| "feq a b = (number a = number b)"

text \<open>
  Go's \<^verbatim>\<open>a + b\<close> and \<^verbatim>\<open>a / 2.0\<close>. \<open>rnd\<close> rounds the exact result of an operation on
  finite floats to a \<^verbatim>\<open>float64\<close>: to the nearest float, to an infinity beyond the
  largest one.
\<close>

fun fadd :: "(real \<Rightarrow> float64) \<Rightarrow> float64 \<Rightarrow> float64 \<Rightarrow> float64" where
  "fadd rnd NaN b = NaN"
| "fadd rnd a NaN = NaN"
| "fadd rnd PosInf b = (if b = NegInf then NaN else PosInf)"
| "fadd rnd a PosInf = (if a = NegInf then NaN else PosInf)"
| "fadd rnd NegInf b = NegInf"
| "fadd rnd a NegInf = NegInf"
| "fadd rnd NegZero b = b"
| "fadd rnd a NegZero = a"
| "fadd rnd (Finite x) (Finite y) = rnd (x + y)"

fun fhalf :: "(real \<Rightarrow> float64) \<Rightarrow> float64 \<Rightarrow> float64" where
  "fhalf rnd (Finite x) = rnd (x / 2)"
| "fhalf rnd a = a"

text \<open>\<^verbatim>\<open>math.MaxFloat64\<close>, the largest finite float, and \<^verbatim>\<open>-math.MaxFloat64\<close>.\<close>

definition MaxFloat64 :: float64 where
  "MaxFloat64 = Finite ((2 ^ 53 - 1) * 2 ^ 971)"

definition minus_MaxFloat64 :: float64 where
  "minus_MaxFloat64 = Finite (- ((2 ^ 53 - 1) * 2 ^ 971))"

subsection \<open>DistMat\<close>

record DistMat =
  Matrix :: "float64 list list"
  Names :: "string list"

text \<open>
  \<open>DimensionMismatch\<close>, \<open>CantConvert\<close> and \<open>CantRead\<close> are the three calls of
  \<^verbatim>\<open>log.Fatalf\<close>; \<open>RuntimePanic\<close> is Go's run-time panic (index or slice bound out of
  range, negative length in \<^verbatim>\<open>make\<close>).
\<close>

datatype error =
    DimensionMismatch nat nat
  | CantConvert string
  | CantRead string
  | RuntimePanic

fun fatal :: "error \<Rightarrow> bool" where
  "fatal RuntimePanic = False"
| "fatal _ = True"

text \<open>The square matrices with one name per row: the invariant of the data model.\<close>

definition square :: "nat \<Rightarrow> DistMat \<Rightarrow> bool" where
  "square n d \<longleftrightarrow>
     length (Names d) = n \<and> length (Matrix d) = n \<and> list_all (\<lambda>row. length row = n) (Matrix d)"

section \<open>Loops and indexed access\<close>

text \<open>
  \<open>for_loop is body s\<close> runs \<open>body i\<close> for the indices \<open>is\<close> in order and stops at the
  first error, keeping the state reached there.
\<close>

fun for_loop :: "nat list \<Rightarrow> (nat \<Rightarrow> 's \<Rightarrow> error option \<times> 's) \<Rightarrow> 's \<Rightarrow> error option \<times> 's" where
  "for_loop [] body s = (None, s)"
| "for_loop (i # is) body s =
     (case body i s of
        (Some e, s') \<Rightarrow> (Some e, s')
      | (None, s') \<Rightarrow> for_loop is body s')"

text \<open>\<^verbatim>\<open>m[i][j]\<close> as a value, and \<^verbatim>\<open>m[i][j] = v\<close>: both panic out of range.\<close>

definition load :: "float64 list list \<Rightarrow> nat \<Rightarrow> nat \<Rightarrow> float64 option" where
  "load m i j = (if i < length m \<and> j < length (m ! i) then Some (m ! i ! j) else None)"

definition store :: "float64 list list \<Rightarrow> nat \<Rightarrow> nat \<Rightarrow> float64 \<Rightarrow> float64 list list option" where
  "store m i j v =
     (if i < length m \<and> j < length (m ! i) then Some (m[i := (m ! i)[j := v]]) else None)"

text \<open>\<^verbatim>\<open>xs[:n]\<close> for a Go \<^verbatim>\<open>int\<close> \<open>n\<close>.\<close>

definition reslice :: "'a list \<Rightarrow> int \<Rightarrow> 'a list option" where
  "reslice xs n = (if 0 \<le> n \<and> nat n \<le> length xs then Some (take (nat n) xs) else None)"

section \<open>DistMat on the values of its rows\<close>

subsection \<open>NewDistMat\<close>

definition NewDistMat :: "int \<Rightarrow> error + DistMat" where
  "NewDistMat n =
     (if n < 0 then Inl RuntimePanic
      else Inr \<lparr>Matrix = replicate (nat n) (replicate (nat n) (Finite 0)),
                Names = replicate (nat n) []\<rparr>)"

subsection \<open>Delete\<close>

text \<open>
  \<^verbatim>\<open>for i, name := range d.Names { if i != taxon { d.Names[j] = name; j++ } }\<close>.
  The loop runs over the indices of \<open>d.Names\<close> and \<open>j \<le> i\<close>, so that no index leaves
  the slice; \<open>name\<close> is read when the iteration starts.
\<close>

definition Delete_name_step :: "int \<Rightarrow> nat \<Rightarrow> nat \<times> string list \<Rightarrow> nat \<times> string list" where
  "Delete_name_step taxon i =
     (\<lambda>(j, names). if int i \<noteq> taxon then (j + 1, names[j := names ! i]) else (j, names))"

text \<open>The body of the loop over \<open>j\<close>: \<^verbatim>\<open>d.Matrix[ii][jj] = d.Matrix[i][j]; jj++\<close>.\<close>

definition Delete_col_step ::
  "int \<Rightarrow> nat \<Rightarrow> nat \<Rightarrow> nat \<Rightarrow> nat \<times> float64 list list \<Rightarrow> error option \<times> nat \<times> float64 list list" where
  "Delete_col_step taxon i ii j =
     (\<lambda>(jj, m).
        if int j = taxon then (None, jj, m)
        else
          (case load m i j of
             None \<Rightarrow> (Some RuntimePanic, jj, m)
           | Some v \<Rightarrow>
               (case store m ii jj v of
                  None \<Rightarrow> (Some RuntimePanic, jj, m)
                | Some m' \<Rightarrow> (None, jj + 1, m'))))"

text \<open>The body of the loop over \<open>i\<close>.\<close>

definition Delete_row_step ::
  "int \<Rightarrow> nat \<Rightarrow> nat \<Rightarrow> nat \<times> float64 list list \<Rightarrow> error option \<times> nat \<times> float64 list list" where
  "Delete_row_step taxon n i =
     (\<lambda>(ii, m).
        if int i = taxon then (None, ii, m)
        else
          (case for_loop [0..<n] (Delete_col_step taxon i ii) (0, m) of
             (Some e, jj, m') \<Rightarrow> (Some e, ii, m')
           | (None, jj, m') \<Rightarrow> (None, ii + 1, m')))"

text \<open>\<^verbatim>\<open>d.Matrix[i] = d.Matrix[i][:n]\<close>, after \<^verbatim>\<open>n--\<close>.\<close>

definition Delete_trim_step :: "int \<Rightarrow> nat \<Rightarrow> float64 list list \<Rightarrow> error option \<times> float64 list list" where
  "Delete_trim_step n i m =
     (if i < length m then
        (case reslice (m ! i) n of
           None \<Rightarrow> (Some RuntimePanic, m)
         | Some row \<Rightarrow> (None, m[i := row]))
      else (Some RuntimePanic, m))"

text \<open>The first half of \<^verbatim>\<open>Delete\<close>: the names, ending with \<^verbatim>\<open>d.Names = d.Names[:j]\<close>.\<close>

definition Delete_names :: "int \<Rightarrow> string list \<Rightarrow> string list" where
  "Delete_names taxon names0 =
     (let (j, names) = fold (Delete_name_step taxon) [0..<length names0] (0, names0)
      in take j names)"

text \<open>
  The second half: the matrix. \<open>n'\<close> is \<open>n\<close> after \<^verbatim>\<open>n--\<close>, a Go \<^verbatim>\<open>int\<close> that is
  \<open>-1\<close> on the empty matrix, where \<^verbatim>\<open>d.Matrix[:n]\<close> panics.
\<close>

definition Delete_matrix :: "int \<Rightarrow> float64 list list \<Rightarrow> error option \<times> float64 list list" where
  "Delete_matrix taxon m0 =
     (let n = length m0 in
      case for_loop [0..<n] (Delete_row_step taxon n) (0, m0) of
        (Some e, ii, m) \<Rightarrow> (Some e, m)
      | (None, ii, m) \<Rightarrow>
          (let n' = int n - 1 in
           case for_loop [0..<nat n'] (Delete_trim_step n') m of
             (Some e, m') \<Rightarrow> (Some e, m')
           | (None, m') \<Rightarrow>
               (case reslice m' n' of
                  None \<Rightarrow> (Some RuntimePanic, m')
                | Some m'' \<Rightarrow> (None, m''))))"

definition Delete :: "int \<Rightarrow> DistMat \<Rightarrow> error option \<times> DistMat" where
  "Delete taxon d =
     (let names = Delete_names taxon (Names d);
          (e, m) = Delete_matrix taxon (Matrix d)
      in (e, \<lparr>Matrix = m, Names = names\<rparr>))"

subsection \<open>DeletePair\<close>








subsection \<open>Min and Max\<close>

text \<open>
  The state of the loops is \<open>(min, minI, minJ)\<close>; the indices start at Go's zero value.
  Neither method changes the receiver.
\<close>

definition Min_step ::
  "DistMat \<Rightarrow> nat \<Rightarrow> nat \<Rightarrow> float64 \<times> nat \<times> nat \<Rightarrow> error option \<times> float64 \<times> nat \<times> nat" where
  "Min_step d i j =
     (\<lambda>(min, minI, minJ).
        if i \<noteq> j then
          (case load (Matrix d) i j of
             None \<Rightarrow> (Some RuntimePanic, min, minI, minJ)
           | Some v \<Rightarrow> if flt v min then (None, v, i, j) else (None, min, minI, minJ))
        else (None, min, minI, minJ))"

definition Min_DistMat :: "DistMat \<Rightarrow> error + float64 \<times> nat \<times> nat" where
  "Min_DistMat d =
     (let n = length (Names d) in
      case for_loop [0..<n] (\<lambda>i. for_loop [0..<n] (Min_step d i)) (MaxFloat64, 0, 0) of
        (Some e, res) \<Rightarrow> Inl e
      | (None, res) \<Rightarrow> Inr res)"

definition Max_step ::
  "DistMat \<Rightarrow> nat \<Rightarrow> nat \<Rightarrow> float64 \<times> nat \<times> nat \<Rightarrow> error option \<times> float64 \<times> nat \<times> nat" where
  "Max_step d i j =
     (\<lambda>(max, maxI, maxJ).
        if i \<noteq> j then
          (case load (Matrix d) i j of
             None \<Rightarrow> (Some RuntimePanic, max, maxI, maxJ)
           | Some v \<Rightarrow> if flt max v then (None, v, i, j) else (None, max, maxI, maxJ))
        else (None, max, maxI, maxJ))"

definition Max_DistMat :: "DistMat \<Rightarrow> error + float64 \<times> nat \<times> nat" where
  "Max_DistMat d =
     (let n = length (Names d) in
      case for_loop [0..<n] (\<lambda>i. for_loop [0..<n] (Max_step d i)) (minus_MaxFloat64, 0, 0) of
        (Some e, res) \<Rightarrow> Inl e
      | (None, res) \<Rightarrow> Inr res)"


section \<open>DistMat on slices in memory\<close>

text \<open>
  What \<^verbatim>\<open>Append\<close> and \<^verbatim>\<open>MakeSymmetrical\<close> do depends on the backing arrays of the rows.
  The memory is the list of the backing arrays of all \<^verbatim>\<open>[]float64\<close> slices, an array
  being addressed by its position. A slice header points into one array: its elements
  are the \<open>Len\<close> cells from \<open>Off\<close> on, and \<open>Cap\<close> cells from \<open>Off\<close> on are its to use.
\<close>

type_synonym memory = "float64 list list"

record slice =
  Ptr :: nat
  Off :: nat
  Len :: nat
  Cap :: nat

text \<open>The headers that Go can build: within their array, with \<open>Len \<le> Cap\<close>.\<close>

definition valid :: "memory \<Rightarrow> slice \<Rightarrow> bool" where
  "valid h s \<longleftrightarrow> Ptr s < length h \<and> Len s \<le> Cap s \<and> Off s + Cap s \<le> length (h ! Ptr s)"

text \<open>The elements of a slice, and \<^verbatim>\<open>s[k]\<close> as a value and as the target of an assignment.\<close>

definition elems :: "memory \<Rightarrow> slice \<Rightarrow> float64 list" where
  "elems h s = take (Len s) (drop (Off s) (h ! Ptr s))"

definition index :: "memory \<Rightarrow> slice \<Rightarrow> nat \<Rightarrow> float64 option" where
  "index h s k = (if k < Len s then Some (h ! Ptr s ! (Off s + k)) else None)"

definition assign :: "memory \<Rightarrow> slice \<Rightarrow> nat \<Rightarrow> float64 \<Rightarrow> memory option" where
  "assign h s k v =
     (if k < Len s then Some (h[Ptr s := (h ! Ptr s)[Off s + k := v]]) else None)"

text \<open>
  \<^verbatim>\<open>append(s, v)\<close>. With spare capacity the value is written into the array of \<open>s\<close>,
  behind its last element, whatever else shares that cell. Without, the elements are
  copied to a new array; \<open>grow c k\<close> is the capacity that the run-time system chooses
  for a slice of capacity \<open>c\<close> that has to hold \<open>k\<close> elements, at least \<open>k\<close>.
\<close>

definition append_slice ::
  "(nat \<Rightarrow> nat \<Rightarrow> nat) \<Rightarrow> memory \<Rightarrow> slice \<Rightarrow> float64 \<Rightarrow> memory \<times> slice" where
  "append_slice grow h s v =
     (if Len s < Cap s then
        (h[Ptr s := (h ! Ptr s)[Off s + Len s := v]], s\<lparr>Len := Len s + 1\<rparr>)
      else
        (let c = max (Len s + 1) (grow (Cap s) (Len s + 1)) in
         (h @ [elems h s @ v # replicate (c - (Len s + 1)) (Finite 0)],
          \<lparr>Ptr = length h, Off = 0, Len = Len s + 1, Cap = c\<rparr>)))"

text \<open>
  A \<^verbatim>\<open>DistMat\<close> in memory: \<open>Matrix_s\<close> holds the headers of the rows, \<open>Names_s\<close> the names,
  \<open>Arrays\<close> the memory. The slices \<^verbatim>\<open>d.Matrix\<close> and \<^verbatim>\<open>d.Names\<close> themselves are lists.
  \<open>DistMat_of\<close> reads the values.
\<close>

record DistMat_s =
  Arrays :: memory
  Matrix_s :: "slice list"
  Names_s :: "string list"


subsection \<open>Append\<close>

text \<open>
  \<^verbatim>\<open>for i := 0; i < n; i++ { d.Matrix[i] = append(d.Matrix[i], data[i]) }\<close>, where
  \<open>data\<close> has \<open>n + 1\<close> elements and \<open>d.Matrix\<close> has \<open>n + 1\<close> rows, so that both indices
  are in range. \<^verbatim>\<open>data[i]\<close> is read from the memory as it is in round \<open>i\<close>.
\<close>

definition Append_step ::
  "(nat \<Rightarrow> nat \<Rightarrow> nat) \<Rightarrow> slice \<Rightarrow> nat \<Rightarrow> memory \<times> slice list \<Rightarrow> memory \<times> slice list" where
  "Append_step grow data i =
     (\<lambda>(h, rows).
        let (h', row) = append_slice grow h (rows ! i) (h ! Ptr data ! (Off data + i))
        in (h', rows[i := row]))"

definition Append ::
  "(nat \<Rightarrow> nat \<Rightarrow> nat) \<Rightarrow> string \<Rightarrow> slice \<Rightarrow> DistMat_s \<Rightarrow> error option \<times> DistMat_s" where
  "Append grow name data d =
     (let n = length (Matrix_s d) in
      if n \<noteq> Len data then (Some (DimensionMismatch n (Len data)), d)
      else
        let names' = Names_s d @ [name];
            (h1, data') = append_slice grow (Arrays d) data (Finite 0);
            rows1 = Matrix_s d @ [data'];
            (h2, rows2) = fold (Append_step grow data') [0..<n] (h1, rows1)
        in (None, \<lparr>Arrays = h2, Matrix_s = rows2, Names_s = names'\<rparr>))"

subsection \<open>MakeSymmetrical\<close>

text \<open>\<^verbatim>\<open>d.Matrix[i][j]\<close> as a value and as the target of an assignment.\<close>

definition index2 :: "memory \<Rightarrow> slice list \<Rightarrow> nat \<Rightarrow> nat \<Rightarrow> float64 option" where
  "index2 h rows i j = (if i < length rows then index h (rows ! i) j else None)"

definition assign2 :: "memory \<Rightarrow> slice list \<Rightarrow> nat \<Rightarrow> nat \<Rightarrow> float64 \<Rightarrow> memory option" where
  "assign2 h rows i j v = (if i < length rows then assign h (rows ! i) j v else None)"

text \<open>The body of the inner loop; the headers \<open>rows\<close> of \<^verbatim>\<open>d.Matrix\<close> do not change.\<close>

definition MakeSymmetrical_step ::
  "(real \<Rightarrow> float64) \<Rightarrow> slice list \<Rightarrow> nat \<Rightarrow> nat \<Rightarrow> memory \<Rightarrow> error option \<times> memory" where
  "MakeSymmetrical_step rnd rows i j h =
     (case index2 h rows i j of
        None \<Rightarrow> (Some RuntimePanic, h)
      | Some m1 \<Rightarrow>
          (case index2 h rows j i of
             None \<Rightarrow> (Some RuntimePanic, h)
           | Some m2 \<Rightarrow>
               (let a = fhalf rnd (fadd rnd m1 m2) in
                case assign2 h rows i j a of
                  None \<Rightarrow> (Some RuntimePanic, h)
                | Some h' \<Rightarrow>
                    (case assign2 h' rows j i a of
                       None \<Rightarrow> (Some RuntimePanic, h')
                     | Some h'' \<Rightarrow> (None, h'')))))"

definition MakeSymmetrical :: "(real \<Rightarrow> float64) \<Rightarrow> DistMat_s \<Rightarrow> error option \<times> DistMat_s" where
  "MakeSymmetrical rnd d =
     (let n = length (Matrix_s d) in
      case for_loop [0..<n - 1]
             (\<lambda>i. for_loop [i + 1..<n] (MakeSymmetrical_step rnd (Matrix_s d) i)) (Arrays d) of
        (e, h) \<Rightarrow> (e, d\<lparr>Arrays := h\<rparr>))"

text \<open>
  Stand-ins for the parameters in the closed examples: a rounding that is exact, as
  that of \<^verbatim>\<open>float64\<close> is on the sums and halves of the examples, and the capacity that
  doubles.
\<close>

definition round_exact :: "real \<Rightarrow> float64" where
  "round_exact x = Finite x"

definition grow_double :: "nat \<Rightarrow> nat \<Rightarrow> nat" where
  "grow_double c k = max k (2 * c)"



text \<open>
  \<open>shared_rows\<close> is the \<open>3 \<times> 3\<close> matrix with the rows \<open>7 4 7\<close>, \<open>6 8 4\<close> and \<open>7 4 7\<close>
  whose first and last row are one slice; \<open>NaN_rows\<close> is a \<open>2 \<times> 2\<close> matrix with an
  array for each row and the entry NaN.
\<close>

definition shared_rows :: DistMat_s where
  "shared_rows =
     \<lparr>Arrays = map (map Finite) [[7, 4, 7], [6, 8, 4]],
      Matrix_s = [\<lparr>Ptr = 0, Off = 0, Len = 3, Cap = 3\<rparr>, \<lparr>Ptr = 1, Off = 0, Len = 3, Cap = 3\<rparr>,
                  \<lparr>Ptr = 0, Off = 0, Len = 3, Cap = 3\<rparr>],
      Names_s = [''b'', ''c'', ''x'']\<rparr>"

definition NaN_rows :: DistMat_s where
  "NaN_rows =
     \<lparr>Arrays = [[Finite 0, NaN], [Finite 1, Finite 0]],
      Matrix_s = [\<lparr>Ptr = 0, Off = 0, Len = 2, Cap = 2\<rparr>, \<lparr>Ptr = 1, Off = 0, Len = 2, Cap = 2\<rparr>],
      Names_s = [''a'', ''b'']\<rparr>"
section \<open>Scanner\<close>

text \<open>
  The \<^verbatim>\<open>bufio.Reader\<close> of a \<^verbatim>\<open>Scanner\<close> is the string of the bytes not yet read; the
  only read error is the end of the stream (\<^verbatim>\<open>Scan\<close> treats every error alike). The
  pointer \<^verbatim>\<open>mat\<close> is \<open>None\<close> for \<^verbatim>\<open>nil\<close>; the matrix it points to is filled in place, so
  that \<open>mat\<close> holds the matrix as it is when \<^verbatim>\<open>Scan\<close> stops.

  \<^verbatim>\<open>strconv.ParseFloat\<close> is a parameter \<open>pf\<close> of the model: \<open>pf t = None\<close> when the
  conversion of the token \<open>t\<close> returns an error. The other library functions are
  modelled on bytes, from their documentation.
\<close>

record Scanner =
  r :: string
  mat :: "DistMat option"

abbreviation NL :: char where
  "NL \<equiv> CHR 0x0A"

abbreviation CR :: char where
  "CR \<equiv> CHR 0x0D"

subsection \<open>Library functions\<close>

text \<open>
  \<^verbatim>\<open>r.ReadString('\n')\<close> on the unread bytes: the line with its newline, no error and the
  rest; or, when there is no newline, all the bytes, the error \<^verbatim>\<open>io.EOF\<close> and nothing left.
\<close>

definition ReadString :: "string \<Rightarrow> string \<times> bool \<times> string" where
  "ReadString input =
     (case dropWhile (\<lambda>c. c \<noteq> NL) input of
        [] \<Rightarrow> (input, True, [])
      | c # rest \<Rightarrow> (takeWhile (\<lambda>c. c \<noteq> NL) input @ [NL], False, rest))"

text \<open>\<^verbatim>\<open>strings.IndexAny(l, chars) >= 0\<close>, for ASCII \<open>chars\<close>.\<close>

definition contains_any :: "string \<Rightarrow> string \<Rightarrow> bool" where
  "contains_any l chars \<longleftrightarrow> list_ex (\<lambda>c. c \<in> set chars) l"

definition num :: string where
  "num = ''1234567890''"

text \<open>\<^verbatim>\<open>strings.TrimRight(l, cutset)\<close>, for an ASCII \<open>cutset\<close>.\<close>

definition TrimRight :: "string \<Rightarrow> string \<Rightarrow> string" where
  "TrimRight l cutset = rev (dropWhile (\<lambda>c. c \<in> set cutset) (rev l))"

text \<open>
  \<^verbatim>\<open>strconv.Atoi\<close>: an optional sign, then decimal digits, at least one and nothing else;
  the value must fit the 64 bits of \<^verbatim>\<open>int\<close>.
\<close>

definition digit :: "char \<Rightarrow> bool" where
  "digit c \<longleftrightarrow> c \<in> set ''0123456789''"

definition digits_value :: "string \<Rightarrow> int" where
  "digits_value ds = foldl (\<lambda>a c. 10 * a + (int (of_char c) - 48)) 0 ds"

definition Atoi :: "string \<Rightarrow> int option" where
  "Atoi s =
     (let (neg, ds) =
            (case s of
               [] \<Rightarrow> (False, [])
             | c # cs \<Rightarrow>
                 if c = CHR ''-'' then (True, cs)
                 else if c = CHR ''+'' then (False, cs)
                 else (False, s))
      in if ds = [] \<or> \<not> list_all digit ds then None
         else
           (let v = (if neg then - digits_value ds else digits_value ds)
            in if v < - (2 ^ 63) \<or> 2 ^ 63 \<le> v then None else Some v))"

text \<open>
  \<^verbatim>\<open>strings.Fields\<close>: the maximal runs of bytes that are not white space. The white
  space is that of ASCII; the white space of Unicode beyond ASCII is not modelled.
  \<open>Fields_from cur cs\<close> reads \<open>cs\<close> with the field \<open>cur\<close> under way.
\<close>

definition space :: "char \<Rightarrow> bool" where
  "space c \<longleftrightarrow> c \<in> set [CHR '' '', CHR 0x09, NL, CHR 0x0B, CHR 0x0C, CR]"

fun Fields_from :: "string \<Rightarrow> string \<Rightarrow> string list" where
  "Fields_from cur [] = (if cur = [] then [] else [cur])"
| "Fields_from cur (c # cs) =
     (if space c then (if cur = [] then Fields_from [] cs else cur # Fields_from [] cs)
      else Fields_from (cur @ [c]) cs)"

definition Fields :: "string \<Rightarrow> string list" where
  "Fields l = Fields_from [] l"

subsection \<open>NewScanner and DistanceMatrix\<close>

definition NewScanner :: "string \<Rightarrow> Scanner" where
  "NewScanner input = \<lparr>r = input, mat = None\<rparr>"

definition DistanceMatrix :: "Scanner \<Rightarrow> DistMat option" where
  "DistanceMatrix s = mat s"

subsection \<open>Scan\<close>

text \<open>
  The loop that skips to the header, entered with the result of the first
  \<^verbatim>\<open>ReadString\<close>: \<^verbatim>\<open>for err == nil && strings.IndexAny(l, num) < 0 { l, err = ... }\<close>.
\<close>

function skip_to_header :: "string \<times> bool \<times> string \<Rightarrow> string \<times> bool \<times> string" where
  "skip_to_header (l, err, rest) =
     (if \<not> err \<and> \<not> contains_any l num then skip_to_header (ReadString rest)
      else (l, err, rest))"
  by pat_completeness auto

termination skip_to_header
proof (relation "measure (\<lambda>(l, err, rest). length rest + (if err then 0 else 1))")
  show "wf (measure (\<lambda>(l, err, rest). length rest + (if err then 0 else 1)))"
    by simp
next
  fix l :: string and err :: bool and rest :: string
  assume "\<not> err \<and> \<not> contains_any l num"
  have "length (dropWhile (\<lambda>c. c \<noteq> NL) rest) \<le> length rest"
    by (rule length_dropWhile_le)
  then show "(ReadString rest, l, err, rest)
               \<in> measure (\<lambda>(l, err, rest). length rest + (if err then 0 else 1))"
    using \<open>\<not> err \<and> \<not> contains_any l num\<close>
    by (auto simp: ReadString_def split: list.splits)
qed

declare skip_to_header.simps [simp del]

text \<open>
  The body of the loop over \<open>j\<close>:
  \<^verbatim>\<open>s.mat.Matrix[i][j-1], err = strconv.ParseFloat(fields[j], 64)\<close>, then \<^verbatim>\<open>log.Fatalf\<close> on
  an error; \<open>fs\<close> is the slice \<^verbatim>\<open>fields\<close>. The value that Go stores with an error is not
  modelled: the process ends.
\<close>

definition Scan_field_step ::
  "(string \<Rightarrow> float64 option) \<Rightarrow> string list \<Rightarrow> nat \<Rightarrow> nat \<Rightarrow> DistMat \<Rightarrow> error option \<times> DistMat" where
  "Scan_field_step pf fs i j d =
     (if j < length fs then
        (case pf (fs ! j) of
           None \<Rightarrow> (Some (CantRead (fs ! j)), d)
         | Some v \<Rightarrow>
             (case store (Matrix d) i (j - 1) v of
                None \<Rightarrow> (Some RuntimePanic, d)
              | Some m \<Rightarrow> (None, d\<lparr>Matrix := m\<rparr>)))
      else (Some RuntimePanic, d))"

text \<open>
  The loop over the \<open>n\<close> rows, from row \<open>i\<close> on: the result of \<^verbatim>\<open>Scan\<close>, the bytes left
  and the matrix. \<^verbatim>\<open>fields[0]\<close> panics on a line without fields.
\<close>

function Scan_rows ::
  "(string \<Rightarrow> float64 option) \<Rightarrow> nat \<Rightarrow> nat \<Rightarrow> string \<Rightarrow> DistMat \<Rightarrow> (error + bool) \<times> string \<times> DistMat" where
  "Scan_rows pf n i input d =
     (if i < n then
        (case ReadString input of
           (l, err, rest) \<Rightarrow>
             if err then (Inr False, rest, d)
             else
               (let fields = Fields l in
                if fields = [] \<or> length (Names d) \<le> i then (Inl RuntimePanic, rest, d)
                else
                  (case for_loop [1..<n + 1] (Scan_field_step pf fields i)
                          (d\<lparr>Names := (Names d)[i := fields ! 0]\<rparr>) of
                     (Some e, d') \<Rightarrow> (Inl e, rest, d')
                   | (None, d') \<Rightarrow> Scan_rows pf n (i + 1) rest d')))
      else (Inr True, input, d))"
  by pat_completeness auto

termination Scan_rows
  by (relation "measure (\<lambda>(pf, n, i, input, d). n - i)") auto

declare Scan_rows.simps [simp del]

text \<open>
  \<^verbatim>\<open>Scan\<close> returns \<open>Inr b\<close> for the Boolean \<open>b\<close>, or \<open>Inl e\<close> when it stops in
  \<^verbatim>\<open>log.Fatalf\<close> or in a panic, together with the scanner as it is then.
\<close>

definition Scan :: "(string \<Rightarrow> float64 option) \<Rightarrow> Scanner \<Rightarrow> (error + bool) \<times> Scanner" where
  "Scan pf s =
     (case skip_to_header (ReadString (r s)) of
        (l, err, rest) \<Rightarrow>
          if err then (Inr False, s\<lparr>r := rest\<rparr>)
          else
            (let l' = TrimRight l [CR, NL] in
             case Atoi l' of
               None \<Rightarrow> (Inl (CantConvert l'), s\<lparr>r := rest\<rparr>)
             | Some n \<Rightarrow>
                 (case NewDistMat n of
                    Inl e \<Rightarrow> (Inl e, s\<lparr>r := rest\<rparr>)
                  | Inr d \<Rightarrow>
                      (case Scan_rows pf (nat n) 0 rest d of
                         (res, rest', d') \<Rightarrow> (res, \<lparr>r = rest', mat = Some d'\<rparr>)))))"

text \<open>
  A stand-in for \<^verbatim>\<open>strconv.ParseFloat\<close> in the closed examples: on a string of decimal
  digits it returns the number, as Go does; it rejects every other string, which Go
  does not.
\<close>

definition ParseFloat_of_digits :: "string \<Rightarrow> float64 option" where
  "ParseFloat_of_digits t =
     (if t \<noteq> [] \<and> list_all digit t then Some (Finite (of_int (digits_value t))) else None)"

section \<open>Vocabulary of the properties\<close>

text \<open>
  \<open>kept keep n\<close> lists, in ascending order, the indices below \<open>n\<close> that a deletion
  keeps.
\<close>

definition kept :: "(nat \<Rightarrow> bool) \<Rightarrow> nat \<Rightarrow> nat list" where
  "kept keep n = filter keep [0..<n]"



text \<open>
  The invariant of the loop over \<open>i\<close> in \<^verbatim>\<open>Delete\<close>, after \<open>u\<close> rounds on the matrix
  \<open>m0\<close>: the rows not yet written are those of \<open>m0\<close>, and the rows already written hold
  the kept columns of the kept rows.
\<close>

definition Delete_inv ::
  "(nat \<Rightarrow> bool) \<Rightarrow> nat \<Rightarrow> float64 list list \<Rightarrow> nat \<Rightarrow> float64 list list \<Rightarrow> bool" where
  "Delete_inv keep n m0 u m \<longleftrightarrow>
     length m = n \<and> (\<forall>a<n. length (m ! a) = n)
     \<and> (\<forall>a. length (kept keep u) \<le> a \<and> a < n \<longrightarrow> m ! a = m0 ! a)
     \<and> (\<forall>a<length (kept keep u).
           take (length (kept keep n)) (m ! a) = map ((!) (m0 ! (kept keep u ! a))) (kept keep n))"

text \<open>
  The pairs \<open>(p, q)\<close> that two nested loops, \<open>i\<close> outside and \<open>j\<close> inside, have visited
  when they stand at \<open>(i, j)\<close>: the pairs before \<open>(i, j)\<close> in row-major order.
\<close>

definition visited :: "nat \<Rightarrow> nat \<Rightarrow> nat \<Rightarrow> nat \<Rightarrow> bool" where
  "visited i j p q \<longleftrightarrow> p < i \<or> (p = i \<and> q < j)"

text \<open>
  Go's \<^verbatim>\<open>(x + y) / 2.0\<close> on \<^verbatim>\<open>float64\<close>.
\<close>

definition mean :: "(real \<Rightarrow> float64) \<Rightarrow> float64 \<Rightarrow> float64 \<Rightarrow> float64" where
  "mean rnd x y = fhalf rnd (fadd rnd x y)"

text \<open>
  The invariant of the loops of \<^verbatim>\<open>MakeSymmetrical\<close>. On the values, for the matrix \<open>m0\<close>
  at the start: the visited pairs \<open>p < q\<close> hold the mean on both sides, the others are
  untouched. In memory: the headers \<open>rows\<close> stay valid and the values they show stand
  in that relation to \<open>m0\<close>.
\<close>

definition averaged ::
  "(real \<Rightarrow> float64) \<Rightarrow> nat \<Rightarrow> float64 list list \<Rightarrow> nat \<Rightarrow> nat \<Rightarrow> float64 list list \<Rightarrow> bool" where
  "averaged rnd n m0 i j m \<longleftrightarrow>
     length m = n \<and> (\<forall>a<n. length (m ! a) = n)
     \<and> (\<forall>p<n. m ! p ! p = m0 ! p ! p)
     \<and> (\<forall>p<n. \<forall>q<n. p < q \<longrightarrow>
           (if visited i j p q
            then m ! p ! q = mean rnd (m0 ! p ! q) (m0 ! q ! p)
               \<and> m ! q ! p = mean rnd (m0 ! p ! q) (m0 ! q ! p)
            else m ! p ! q = m0 ! p ! q \<and> m ! q ! p = m0 ! q ! p))"

definition MakeSymmetrical_inv ::
  "(real \<Rightarrow> float64) \<Rightarrow> slice list \<Rightarrow> float64 list list \<Rightarrow> nat \<Rightarrow> nat \<Rightarrow> memory \<Rightarrow> bool" where
  "MakeSymmetrical_inv rnd rows m0 i j h \<longleftrightarrow>
     list_all (valid h) rows \<and> averaged rnd (length rows) m0 i j (map (elems h) rows)"

text \<open>
  A line of the stream that ends with its newline, and a data row that \<^verbatim>\<open>Scan\<close> reads
  without error into a matrix of \<open>n\<close> columns: a newline-terminated line with more than
  \<open>n\<close> fields whose fields \<open>1\<close> to \<open>n\<close> are converted by \<open>pf\<close>.
\<close>

definition terminated_line :: "string \<Rightarrow> bool" where
  "terminated_line l \<longleftrightarrow> l \<noteq> [] \<and> last l = NL \<and> NL \<notin> set (butlast l)"

definition good_row :: "(string \<Rightarrow> float64 option) \<Rightarrow> nat \<Rightarrow> string \<Rightarrow> bool" where
  "good_row pf n l \<longleftrightarrow>
     terminated_line l \<and> n < length (Fields l)
     \<and> list_all (\<lambda>j. pf (Fields l ! j) \<noteq> None) [1..<n + 1]"

section \<open>Loops\<close>

lemma for_loop_append:
  "for_loop (xs @ ys) body s =
     (case for_loop xs body s of (Some e, s') \<Rightarrow> (Some e, s') | (None, s') \<Rightarrow> for_loop ys body s')"
  by (induction xs arbitrary: s) (auto split: prod.splits option.splits)

lemma for_loop_Suc_ok:
  "for_loop [0..<m] body s = (None, s') \<Longrightarrow> for_loop [0..<Suc m] body s = body m s'"
  by (simp add: for_loop_append split: prod.splits option.splits)

lemma kept_0:
  "kept keep 0 = []"
  by (simp add: kept_def)

lemma kept_Suc:
  "kept keep (Suc m) = (if keep m then kept keep m @ [m] else kept keep m)"
  by (simp add: kept_def)

lemma length_kept_le:
  "length (kept keep m) \<le> m"
  unfolding kept_def by (metis diff_zero length_filter_le length_upt)

lemma compact_closed:
  assumes step: "\<And>i j ys. step i (j, ys) = (if keep i then (j + 1, ys[j := ys ! i]) else (j, ys))"
    and "m \<le> length xs"
  shows "fold step [0..<m] (0, xs) =
           (length (kept keep m), map ((!) xs) (kept keep m) @ drop (length (kept keep m)) xs)"
  using assms(2)
proof (induction m)
  case 0
  then show ?case by (simp add: kept_0)
next
  case (Suc m)
  let ?F = "kept keep m"
  let ?j = "length ?F"
  let ?ys = "map ((!) xs) ?F @ drop ?j xs"
  have ih: "fold step [0..<m] (0, xs) = (?j, ?ys)" using Suc by simp
  have jm: "?j \<le> m" by (rule length_kept_le)
  have m: "m < length xs" using Suc.prems by simp
  show ?case
  proof (cases "keep m")
    case False
    then show ?thesis using ih by (simp add: step kept_Suc)
  next
    case True
    have rd: "?ys ! m = xs ! m" using jm m by (simp add: nth_append)
    have "drop ?j xs = xs ! ?j # drop (Suc ?j) xs"
      using jm m by (simp add: Cons_nth_drop_Suc)
    then have "?ys[?j := xs ! m] = map ((!) xs) ?F @ (xs ! m # drop (Suc ?j) xs)"
      by (simp add: list_update_append)
    then show ?thesis using ih True rd by (simp add: step kept_Suc)
  qed
qed

lemma for_loop_upt_Suc_ok:
  "a \<le> b \<Longrightarrow> for_loop [a..<b] body s = (None, s') \<Longrightarrow> for_loop [a..<Suc b] body s = body b s'"
  by (simp add: for_loop_append split: prod.splits option.splits)

lemma load_in_range:
  "p < length m \<Longrightarrow> q < length (m ! p) \<Longrightarrow> load m p q = Some (m ! p ! q)"
  by (simp add: load_def)

lemma store_in_range:
  "p < length m \<Longrightarrow> q < length (m ! p) \<Longrightarrow> store m p q v = Some (m[p := (m ! p)[q := v]])"
  by (simp add: store_def)

lemma nth_update2_eq:
  "p < length m \<Longrightarrow> q < length (m ! p) \<Longrightarrow> m[p := (m ! p)[q := v]] ! p ! q = v"
  by simp

lemma nth_update2_neq:
  "\<not> (a = p \<and> b = q) \<Longrightarrow> m[p := (m ! p)[q := v]] ! a ! b = m ! a ! b"
proof (cases "p < length m")
  case True
  then show "\<not> (a = p \<and> b = q) \<Longrightarrow> m[p := (m ! p)[q := v]] ! a ! b = m ! a ! b"
    by (cases "a = p") auto
next
  case False
  then have "length m \<le> p" by simp
  then have "m[p := (m ! p)[q := v]] = m" by (rule list_update_beyond)
  then show "m[p := (m ! p)[q := v]] ! a ! b = m ! a ! b" by simp
qed

lemma length_update2:
  "length (m[p := (m ! p)[q := v]]) = length m"
  "a < length m \<Longrightarrow> length (m[p := (m ! p)[q := v]] ! a) = length (m ! a)"
  by (cases "a = p"; simp)+


section \<open>Properties of Append\<close>












section \<open>Properties of Delete\<close>

lemma Delete_cols_closed:
  assumes "ii \<le> i" and "i < length m" and "length (m ! ii) = length (m ! i)"
    and "c \<le> length (m ! i)"
  shows "for_loop [0..<c] (Delete_col_step taxon i ii) (0, m) =
           (None, length (kept (\<lambda>j. int j \<noteq> taxon) c),
            m[ii := map ((!) (m ! i)) (kept (\<lambda>j. int j \<noteq> taxon) c)
                    @ drop (length (kept (\<lambda>j. int j \<noteq> taxon) c)) (m ! ii)])"
  using assms(4)
proof (induction c)
  case 0
  then show ?case by (simp add: kept_0)
next
  case (Suc c)
  define F where "F = kept (\<lambda>j. int j \<noteq> taxon) c"
  define src where "src = m ! i"
  define dst where "dst = m ! ii"
  define R where "R = map ((!) src) F @ drop (length F) dst"
  have ih: "for_loop [0..<c] (Delete_col_step taxon i ii) (0, m) = (None, length F, m[ii := R])"
    using Suc by (simp add: F_def src_def dst_def R_def)
  have jc: "length F \<le> c" unfolding F_def by (rule length_kept_le)
  have c: "c < length src" "c < length dst"
    using Suc.prems assms(3) by (simp_all add: src_def dst_def)
  have ii: "ii < length m" using assms(1,2) by simp
  have lenR: "length R = length dst" using jc c by (simp add: R_def)
  have Rc: "R ! c = dst ! c" using jc c by (simp add: R_def nth_append)
  have goal: "for_loop [0..<Suc c] (Delete_col_step taxon i ii) (0, m) =
      (None, length (kept (\<lambda>j. int j \<noteq> taxon) (Suc c)),
       m[ii := map ((!) src) (kept (\<lambda>j. int j \<noteq> taxon) (Suc c))
               @ drop (length (kept (\<lambda>j. int j \<noteq> taxon) (Suc c))) dst])"
  proof (cases "int c = taxon")
    case True
    then show ?thesis
      unfolding for_loop_Suc_ok[OF ih]
      by (simp add: Delete_col_step_def kept_Suc F_def[symmetric] R_def)
  next
    case False
    have ld: "load (m[ii := R]) i c = Some (src ! c)"
    proof (cases "i = ii")
      case True
      then have "dst = src" by (simp add: src_def dst_def)
      then show ?thesis using True ii lenR Rc c by (simp add: load_def)
    next
      case False
      then show ?thesis using assms(2) c by (simp add: load_def src_def)
    qed
    have "drop (length F) dst = dst ! length F # drop (Suc (length F)) dst"
      using jc c by (simp add: Cons_nth_drop_Suc)
    then have upd: "R[length F := src ! c] = map ((!) src) (F @ [c]) @ drop (Suc (length F)) dst"
      by (simp add: R_def list_update_append)
    have st: "store (m[ii := R]) ii (length F) (src ! c)
                = Some (m[ii := map ((!) src) (F @ [c]) @ drop (Suc (length F)) dst])"
      using ii jc c lenR upd by (simp add: store_def)
    show ?thesis
      unfolding for_loop_Suc_ok[OF ih] using False ld st
      by (simp add: Delete_col_step_def kept_Suc F_def[symmetric])
  qed
  then show ?case by (simp only: src_def dst_def)
qed

lemma Delete_rows_inv:
  assumes "length m0 = n" and "\<forall>a<n. length (m0 ! a) = n" and "u \<le> n"
  shows "\<exists>m. for_loop [0..<u] (Delete_row_step taxon n) (0, m0)
               = (None, length (kept (\<lambda>j. int j \<noteq> taxon) u), m)
             \<and> Delete_inv (\<lambda>j. int j \<noteq> taxon) n m0 u m"
  using assms(3)
proof (induction u)
  case 0
  then show ?case using assms(1,2) by (simp add: kept_0 Delete_inv_def)
next
  case (Suc u)
  let ?keep = "\<lambda>j. int j \<noteq> taxon"
  let ?ii = "length (kept ?keep u)"
  let ?Fn = "kept ?keep n"
  from Suc obtain m where
    run: "for_loop [0..<u] (Delete_row_step taxon n) (0, m0) = (None, ?ii, m)"
    and inv: "Delete_inv ?keep n m0 u m"
    by auto
  have len: "length m = n" and rows: "\<And>a. a < n \<Longrightarrow> length (m ! a) = n"
    and rest: "\<And>a. ?ii \<le> a \<Longrightarrow> a < n \<Longrightarrow> m ! a = m0 ! a"
    and early: "\<And>a. a < ?ii \<Longrightarrow> take (length ?Fn) (m ! a) = map ((!) (m0 ! (kept ?keep u ! a))) ?Fn"
    using inv by (simp_all add: Delete_inv_def)
  have iir: "?ii \<le> u" by (rule length_kept_le)
  have u: "u < n" using Suc.prems by simp
  show ?case
  proof (cases "?keep u")
    case False
    then have "Delete_inv ?keep n m0 (Suc u) m"
      using inv by (simp add: Delete_inv_def kept_Suc)
    then show ?thesis
      unfolding for_loop_Suc_ok[OF run] using False by (simp add: Delete_row_step_def kept_Suc)
  next
    case True
    let ?R = "map ((!) (m ! u)) ?Fn @ drop (length ?Fn) (m ! ?ii)"
    let ?m' = "m[?ii := ?R]"
    have cols: "for_loop [0..<n] (Delete_col_step taxon u ?ii) (0, m) = (None, length ?Fn, ?m')"
      using Delete_cols_closed[of ?ii u m n taxon] iir u len rows by simp
    have step: "for_loop [0..<Suc u] (Delete_row_step taxon n) (0, m0) = (None, Suc ?ii, ?m')"
      unfolding for_loop_Suc_ok[OF run] using True cols by (simp add: Delete_row_step_def)
    have Fn: "length ?Fn \<le> n" by (rule length_kept_le)
    have lenR: "length ?R = n" using Fn rows[of ?ii] iir u by simp
    have src: "m ! u = m0 ! u" using rest[of u] iir u by simp
    have "Delete_inv ?keep n m0 (Suc u) ?m'"
      unfolding Delete_inv_def
    proof (intro conjI allI impI)
      show "length ?m' = n" using len by simp
    next
      fix a assume "a < n"
      then show "length (?m' ! a) = n"
        using lenR rows len by (cases "a = ?ii") simp_all
    next
      fix a assume "length (kept ?keep (Suc u)) \<le> a \<and> a < n"
      then show "?m' ! a = m0 ! a"
        using True rest[of a] by (simp add: kept_Suc)
    next
      fix a assume a: "a < length (kept ?keep (Suc u))"
      show "take (length ?Fn) (?m' ! a) = map ((!) (m0 ! (kept ?keep (Suc u) ! a))) ?Fn"
      proof (cases "a = ?ii")
        case True
        then show ?thesis
          using \<open>?keep u\<close> iir u len src by (simp add: kept_Suc)
      next
        case False
        then have "a < ?ii" using a \<open>?keep u\<close> by (simp add: kept_Suc)
        then show ?thesis
          using early[of a] False \<open>?keep u\<close> by (simp add: kept_Suc nth_append)
      qed
    qed
    then show ?thesis using step True by (simp add: kept_Suc)
  qed
qed

lemma Delete_trim_closed:
  assumes "t \<le> length m" and "\<forall>a<t. k \<le> length (m ! a)"
  shows "for_loop [0..<t] (Delete_trim_step (int k)) m = (None, map (take k) (take t m) @ drop t m)"
  using assms
proof (induction t)
  case 0
  then show ?case by simp
next
  case (Suc t)
  let ?mt = "map (take k) (take t m) @ drop t m"
  have ih: "for_loop [0..<t] (Delete_trim_step (int k)) m = (None, ?mt)" using Suc by simp
  have t: "t < length m" using Suc.prems by simp
  have row: "?mt ! t = m ! t" using t by (simp add: nth_append)
  have "drop t m = m ! t # drop (Suc t) m" using t by (simp add: Cons_nth_drop_Suc)
  then have "?mt[t := take k (m ! t)] = map (take k) (take (Suc t) m) @ drop (Suc t) m"
    using t by (simp add: list_update_append take_Suc_conv_app_nth)
  then show ?case
    unfolding for_loop_Suc_ok[OF ih] using t row Suc.prems(2)
    by (simp add: Delete_trim_step_def reslice_def)
qed


lemma Delete_names_closed:
  "Delete_names taxon names = map ((!) names) (kept (\<lambda>j. int j \<noteq> taxon) (length names))"
proof -
  have "fold (Delete_name_step taxon) [0..<length names] (0, names)
          = (length (kept (\<lambda>j. int j \<noteq> taxon) (length names)),
             map ((!) names) (kept (\<lambda>j. int j \<noteq> taxon) (length names))
               @ drop (length (kept (\<lambda>j. int j \<noteq> taxon) (length names))) names)"
    by (rule compact_closed) (simp_all add: Delete_name_step_def)
  then show ?thesis by (simp add: Delete_names_def)
qed

lemma Delete_matrix_closed:
  assumes "length m0 = n" and "\<forall>a<n. length (m0 ! a) = n" and "0 < n"
  shows "\<exists>m. Delete_matrix taxon m0 = (None, map (take (n - 1)) (take (n - 1) m))
           \<and> Delete_inv (\<lambda>j. int j \<noteq> taxon) n m0 n m"
proof -
  let ?keep = "\<lambda>j. int j \<noteq> taxon"
  obtain m where run: "for_loop [0..<n] (Delete_row_step taxon n) (0, m0)
                         = (None, length (kept ?keep n), m)"
    and inv: "Delete_inv ?keep n m0 n m"
    using Delete_rows_inv[OF assms(1,2), of n taxon] by auto
  have lm: "length m = n" and rm: "\<forall>a<n - 1. n - 1 \<le> length (m ! a)"
    using inv by (simp_all add: Delete_inv_def)
  have n1: "int n - 1 = int (n - 1)" using assms(3) by simp
  have trim: "for_loop [0..<n - 1] (Delete_trim_step (int (n - 1))) m
                = (None, map (take (n - 1)) (take (n - 1) m) @ drop (n - 1) m)"
    using Delete_trim_closed[of "n - 1" m "n - 1"] lm rm by simp
  have cut: "reslice (map (take (n - 1)) (take (n - 1) m) @ drop (n - 1) m) (int (n - 1))
               = Some (map (take (n - 1)) (take (n - 1) m))"
    using lm by (simp add: reslice_def)
  have "Delete_matrix taxon m0 = (None, map (take (n - 1)) (take (n - 1) m))"
    unfolding Delete_matrix_def Let_def assms(1) run n1 nat_int using trim cut by simp
  then show ?thesis using inv by blast
qed


lemma kept_all:
  assumes "taxon < 0 \<or> int n \<le> taxon"
  shows "kept (\<lambda>j. int j \<noteq> taxon) n = [0..<n]"
  using assms by (auto simp: kept_def filter_id_conv)




section \<open>Append and Delete outside their preconditions\<close>

text \<open>
  C2 as stated fails for \<^verbatim>\<open>Delete\<close>: with index \<open>5\<close> on a \<open>2 \<times> 2\<close> matrix the call
  returns without any error, and the matrix has lost its last row and column while both
  names are still there.
\<close>

theorem Delete_out_of_range_counterexample:
  "Delete 5 \<lparr>Matrix = map (map Finite) [[0, 1], [3, 0]], Names = [''a'', ''b'']\<rparr>
     = (None, \<lparr>Matrix = [[Finite 0]], Names = [''a'', ''b'']\<rparr>)"
  by code_simp

text \<open>
  C2, amended. \<open>Append name data\<close> with \<open>Len data\<close> different from the number of rows
  stops with the fatal error of \<^verbatim>\<open>log.Fatalf\<close> and the receiver is unchanged, in every
  memory. \<^verbatim>\<open>Delete\<close> checks no index: on an \<open>n \<times> n\<close> matrix with \<open>0 < n\<close> and an index
  outside \<open>[0, n)\<close> it returns without error and the names are unchanged.
\<close>

theorem Append_mismatch_Delete_out_of_range:
  "(Len data \<noteq> length (Matrix_s ds) \<longrightarrow>
      Append grow name data ds = (Some (DimensionMismatch (length (Matrix_s ds)) (Len data)), ds))
   \<and> (square n d \<and> 0 < n \<and> (taxon < 0 \<or> int n \<le> taxon) \<longrightarrow>
        fst (Delete taxon d) = None \<and> Names (snd (Delete taxon d)) = Names d)"
proof (intro conjI impI)
  assume "Len data \<noteq> length (Matrix_s ds)"
  then show "Append grow name data ds
               = (Some (DimensionMismatch (length (Matrix_s ds)) (Len data)), ds)"
    by (auto simp: Append_def Let_def)
next
  assume h: "square n d \<and> 0 < n \<and> (taxon < 0 \<or> int n \<le> taxon)"
  then have len: "length (Matrix d) = n" and rows: "\<forall>a<n. length (Matrix d ! a) = n"
    and names: "length (Names d) = n" and n: "0 < n"
    by (simp_all add: square_def list_all_length)
  from Delete_matrix_closed[OF len rows n, of taxon] obtain m where
    mx: "Delete_matrix taxon (Matrix d) = (None, map (take (n - 1)) (take (n - 1) m))"
    by blast
  have "kept (\<lambda>j. int j \<noteq> taxon) n = [0..<n]"
    using h by (intro kept_all) simp
  then have nm: "Delete_names taxon (Names d) = Names d"
    using map_nth[of "Names d"] by (simp add: Delete_names_closed names)
  show "fst (Delete taxon d) = None" by (simp add: Delete_def mx)
  show "Names (snd (Delete taxon d)) = Names d" by (simp add: Delete_def mx nm)
qed

theorem Append_mismatch_Delete_out_of_range_witness:
  "Len \<lparr>Ptr = 2, Off = 0, Len = 1, Cap = 1\<rparr>
     \<noteq> length (Matrix_s \<lparr>Arrays = map (map Finite) [[0, 1], [3, 0], [1]],
                            Matrix_s = [\<lparr>Ptr = 0, Off = 0, Len = 2, Cap = 2\<rparr>,
                                        \<lparr>Ptr = 1, Off = 0, Len = 2, Cap = 2\<rparr>],
                            Names_s = [''a'', ''b'']\<rparr>)
   \<and> Append grow_double ''c'' \<lparr>Ptr = 2, Off = 0, Len = 1, Cap = 1\<rparr>
        \<lparr>Arrays = map (map Finite) [[0, 1], [3, 0], [1]],
         Matrix_s = [\<lparr>Ptr = 0, Off = 0, Len = 2, Cap = 2\<rparr>, \<lparr>Ptr = 1, Off = 0, Len = 2, Cap = 2\<rparr>],
         Names_s = [''a'', ''b'']\<rparr>
        = (Some (DimensionMismatch 2 1),
           \<lparr>Arrays = map (map Finite) [[0, 1], [3, 0], [1]],
            Matrix_s = [\<lparr>Ptr = 0, Off = 0, Len = 2, Cap = 2\<rparr>, \<lparr>Ptr = 1, Off = 0, Len = 2, Cap = 2\<rparr>],
            Names_s = [''a'', ''b'']\<rparr>)
   \<and> square 2 \<lparr>Matrix = map (map Finite) [[0, 1], [3, 0]], Names = [''a'', ''b'']\<rparr> \<and> (0::nat) < 2
   \<and> ((5::int) < 0 \<or> int 2 \<le> 5)
   \<and> fst (Delete 5 \<lparr>Matrix = map (map Finite) [[0, 1], [3, 0]], Names = [''a'', ''b'']\<rparr>) = None
   \<and> Names (snd (Delete 5 \<lparr>Matrix = map (map Finite) [[0, 1], [3, 0]], Names = [''a'', ''b'']\<rparr>)) = [''a'', ''b'']"
  using Append_mismatch_Delete_out_of_range[of
      "\<lparr>Ptr = 2, Off = 0, Len = 1, Cap = 1\<rparr>"
      "\<lparr>Arrays = map (map Finite) [[0, 1], [3, 0], [1]],
        Matrix_s = [\<lparr>Ptr = 0, Off = 0, Len = 2, Cap = 2\<rparr>, \<lparr>Ptr = 1, Off = 0, Len = 2, Cap = 2\<rparr>],
        Names_s = [''a'', ''b'']\<rparr>"
      grow_double "''c''" 2
      "\<lparr>Matrix = map (map Finite) [[0, 1], [3, 0]], Names = [''a'', ''b'']\<rparr>" 5]
  by (simp add: square_def)
section \<open>Properties of DeletePair\<close>











section \<open>Min and Max on a matrix that holds the start value\<close>

lemma flt_irrefl:
  "\<not> flt a a"
  by (cases a) simp_all

text \<open>
  C4. \<^verbatim>\<open>Min\<close> starts from \<^verbatim>\<open>math.MaxFloat64\<close> with the indices \<open>0, 0\<close> and moves only
  to an entry that is strictly smaller. On the \<open>2 \<times> 2\<close> matrix whose two entries off the
  diagonal are \<^verbatim>\<open>math.MaxFloat64\<close> it returns that value, the smallest entry off the
  diagonal, with the indices \<open>0, 0\<close> of a cell on the diagonal, which holds \<open>0\<close>. \<^verbatim>\<open>Max\<close>
  does the same with \<^verbatim>\<open>-math.MaxFloat64\<close>.
\<close>

theorem Min_Max_sentinel_indices:
  "Min_DistMat \<lparr>Matrix = [[Finite 0, MaxFloat64], [MaxFloat64, Finite 0]], Names = [''a'', ''b'']\<rparr>
     = Inr (MaxFloat64, 0, 0)
   \<and> Max_DistMat \<lparr>Matrix = [[Finite 0, minus_MaxFloat64], [minus_MaxFloat64, Finite 0]],
                   Names = [''a'', ''b'']\<rparr>
     = Inr (minus_MaxFloat64, 0, 0)"
  by (simp add: Min_DistMat_def Min_step_def Max_DistMat_def Max_step_def load_def upt_rec
      flt_irrefl)
section \<open>Properties of Scan\<close>

lemma ReadString_eof:
  assumes "NL \<notin> set final"
  shows "ReadString final = (final, True, [])"
proof -
  have dw: "dropWhile (\<lambda>c. c \<noteq> NL) final = []"
    using assms by (auto simp: dropWhile_eq_Nil_conv)
  show ?thesis unfolding ReadString_def dw by simp
qed

lemma ReadString_line:
  assumes "terminated_line l"
  shows "ReadString (l @ rest) = (l, False, rest)"
proof -
  define body where "body = butlast l"
  have l: "l = body @ [NL]" and body: "NL \<notin> set body"
    using assms unfolding terminated_line_def body_def by (metis append_butlast_last_id, simp)
  have all: "\<And>c. c \<in> set body \<Longrightarrow> c \<noteq> NL" using body by auto
  have "dropWhile (\<lambda>c. c \<noteq> NL) (body @ NL # rest) = NL # rest"
    using all by simp
  moreover have "takeWhile (\<lambda>c. c \<noteq> NL) (body @ NL # rest) = body"
    using all by simp
  ultimately show ?thesis by (simp add: ReadString_def l)
qed

lemma skip_to_header_skips:
  assumes "\<forall>l\<in>set ls. terminated_line l \<and> \<not> contains_any l num"
  shows "skip_to_header (ReadString (concat ls @ rest)) = skip_to_header (ReadString rest)"
  using assms
proof (induction ls)
  case Nil
  then show ?case by simp
next
  case (Cons l ls)
  then have l: "terminated_line l" "\<not> contains_any l num" by simp_all
  have "skip_to_header (ReadString (concat (l # ls) @ rest))
          = skip_to_header (l, False, concat ls @ rest)"
    using ReadString_line[OF l(1), of "concat ls @ rest"] by simp
  also have "\<dots> = skip_to_header (ReadString (concat ls @ rest))"
    using l(2) by (simp add: skip_to_header.simps)
  finally show ?case using Cons by simp
qed

lemma skip_to_header_eof:
  assumes "\<forall>l\<in>set ls. terminated_line l \<and> \<not> contains_any l num" and "NL \<notin> set final"
  shows "skip_to_header (ReadString (concat ls @ final)) = (final, True, [])"
  by (simp add: skip_to_header_skips[OF assms(1)] ReadString_eof[OF assms(2)] skip_to_header.simps)

lemma skip_to_header_found:
  assumes "\<forall>l\<in>set ls. terminated_line l \<and> \<not> contains_any l num"
    and "terminated_line hdr" and "contains_any hdr num"
  shows "skip_to_header (ReadString (concat ls @ hdr @ rest)) = (hdr, False, rest)"
  using assms(3)
  by (simp add: skip_to_header_skips[OF assms(1)] ReadString_line[OF assms(2)] skip_to_header.simps)

lemma Scan_eof_before_header:
  assumes "\<forall>l\<in>set ls. terminated_line l \<and> \<not> contains_any l num" and "NL \<notin> set final"
    and "r s = concat ls @ final"
  shows "Scan pf s = (Inr False, s\<lparr>r := []\<rparr>)"
  by (simp add: Scan_def assms(3) skip_to_header_eof[OF assms(1,2)])

lemma square_store:
  assumes "square n d" and "i < n" and "j < n"
  shows "\<exists>m. store (Matrix d) i j v = Some m \<and> square n (d\<lparr>Matrix := m\<rparr>)"
proof -
  have len: "length (Matrix d) = n" and rows: "\<And>a. a < n \<Longrightarrow> length (Matrix d ! a) = n"
    and names: "length (Names d) = n"
    using assms(1) by (simp_all add: square_def list_all_length)
  let ?m = "(Matrix d)[i := (Matrix d ! i)[j := v]]"
  have st: "store (Matrix d) i j v = Some ?m"
    using assms(2,3) len rows by (simp add: store_in_range)
  have "length (?m ! a) = n" if "a < n" for a
    using that len rows by (simp only: length_update2(2))
  then have "square n (d\<lparr>Matrix := ?m\<rparr>)"
    using len names by (simp add: square_def list_all_length)
  then show ?thesis using st by blast
qed

lemma Scan_fields_ok:
  assumes "square n d" and "i < n" and "n < length fs"
    and "list_all (\<lambda>j. pf (fs ! j) \<noteq> None) [1..<n + 1]" and "k \<le> n"
  shows "\<exists>d'. for_loop [1..<Suc k] (Scan_field_step pf fs i) d = (None, d') \<and> square n d'"
  using assms(5)
proof (induction k)
  case 0
  then show ?case using assms(1) by simp
next
  case (Suc k)
  then obtain d1 where run: "for_loop [1..<Suc k] (Scan_field_step pf fs i) d = (None, d1)"
    and sq: "square n d1"
    by auto
  have k: "k < n" using Suc.prems by simp
  have "Suc k \<in> set [1..<n + 1]" using k by auto
  then have "pf (fs ! Suc k) \<noteq> None" using assms(4) by (simp only: list_all_iff) blast
  then obtain v where v: "pf (fs ! Suc k) = Some v" by blast
  from square_store[OF sq assms(2) k, of v] obtain m where
    st: "store (Matrix d1) i k v = Some m" and sq': "square n (d1\<lparr>Matrix := m\<rparr>)"
    by blast
  have "Scan_field_step pf fs i (Suc k) d1 = (None, d1\<lparr>Matrix := m\<rparr>)"
    using k assms(3) v st by (simp add: Scan_field_step_def)
  moreover have "for_loop [1..<Suc (Suc k)] (Scan_field_step pf fs i) d
                   = Scan_field_step pf fs i (Suc k) d1"
    using run by (intro for_loop_upt_Suc_ok) simp_all
  ultimately show ?case using sq' by simp
qed

lemma Scan_rows_step:
  assumes "i < n" and "ReadString input = (l, False, rest)" and "Fields l \<noteq> []"
    and "i < length (Names d)"
    and "for_loop [1..<Suc n] (Scan_field_step pf (Fields l) i)
           (d\<lparr>Names := (Names d)[i := Fields l ! 0]\<rparr>) = (None, d2)"
  shows "Scan_rows pf n i input d = Scan_rows pf n (i + 1) rest d2"
  unfolding Scan_rows.simps[of pf n i input d] using assms by (simp add: Let_def)

lemma Scan_rows_eof:
  assumes "square n d" and "\<forall>row\<in>set rows. good_row pf n row" and "i + length rows < n"
  shows "\<exists>d'. \<forall>final. NL \<notin> set final \<longrightarrow>
           Scan_rows pf n i (concat rows @ final) d = (Inr False, [], d')"
  using assms
proof (induction rows arbitrary: i d)
  case Nil
  then have "Scan_rows pf n i final d = (Inr False, [], d)" if "NL \<notin> set final" for final
    unfolding Scan_rows.simps[of pf n i final d] using that by (simp add: ReadString_eof)
  then show ?case by auto
next
  case (Cons row rows)
  have row: "terminated_line row" "n < length (Fields row)"
    "list_all (\<lambda>j. pf (Fields row ! j) \<noteq> None) [1..<n + 1]"
    using Cons.prems(2) by (simp_all add: good_row_def)
  have i: "i < n" using Cons.prems(3) by simp
  have names: "length (Names d) = n" using Cons.prems(1) by (simp add: square_def)
  define d1 where "d1 = d\<lparr>Names := (Names d)[i := Fields row ! 0]\<rparr>"
  have sq1: "square n d1" using Cons.prems(1) by (simp add: d1_def square_def)
  from Scan_fields_ok[OF sq1 i row(2,3), of n] obtain d2 where
    fl: "for_loop [1..<Suc n] (Scan_field_step pf (Fields row) i) d1 = (None, d2)"
    and sq2: "square n d2"
    by auto
  have "\<exists>d'. \<forall>final. NL \<notin> set final \<longrightarrow>
           Scan_rows pf n (i + 1) (concat rows @ final) d2 = (Inr False, [], d')"
    using sq2 Cons.prems(2,3) by (intro Cons.IH) simp_all
  then obtain d' where rest:
    "\<And>final. NL \<notin> set final \<Longrightarrow> Scan_rows pf n (i + 1) (concat rows @ final) d2 = (Inr False, [], d')"
    by blast
  have "Scan_rows pf n i (concat (row # rows) @ final) d = (Inr False, [], d')"
    if "NL \<notin> set final" for final
  proof -
    have rd: "ReadString (row @ concat rows @ final) = (row, False, concat rows @ final)"
      by (rule ReadString_line[OF row(1)])
    have ne: "Fields row \<noteq> []" using row(2) by auto
    have "Scan_rows pf n i (row @ concat rows @ final) d
            = Scan_rows pf n (i + 1) (concat rows @ final) d2"
      using i rd ne _ fl[unfolded d1_def] by (rule Scan_rows_step) (simp add: names i)
    then show ?thesis using rest[OF that] by simp
  qed
  then show ?case by blast
qed

lemma NewDistMat_square:
  assumes "0 \<le> n"
  shows "\<exists>d. NewDistMat n = Inr d \<and> square (nat n) d"
  using assms by (simp add: NewDistMat_def square_def list_all_length)

text \<open>
  A token that \<^verbatim>\<open>ParseFloat\<close> rejects ends \<^verbatim>\<open>Scan\<close> in \<^verbatim>\<open>log.Fatalf\<close>, here on the
  stream of the two lines \<^verbatim>\<open>1\<close> and \<^verbatim>\<open>A x\<close>.
\<close>

lemma Scan_bad_token_is_fatal:
  "Scan ParseFloat_of_digits (NewScanner (''1'' @ [NL] @ ''A x'' @ [NL]))
     = (Inl (CantRead ''x''), \<lparr>r = [], mat = Some \<lparr>Matrix = [[Finite 0]], Names = [''A'']\<rparr>\<rparr>)
   \<and> fatal (CantRead ''x'')"
  by code_simp

text \<open>
  C3 fails on a data row with too few fields. On the stream of the two lines \<^verbatim>\<open>1\<close> and
  \<^verbatim>\<open>A\<close>, whatever \<^verbatim>\<open>ParseFloat\<close> does, \<^verbatim>\<open>Scan\<close> stops in the run-time panic of
  \<^verbatim>\<open>fields[1]\<close>, an index out of range, and not in the \<^verbatim>\<open>log.Fatalf\<close> that reports a
  token it cannot read.
\<close>

theorem Scan_missing_field_panics:
  "Scan pf (NewScanner (''1'' @ [NL] @ ''A'' @ [NL]))
     = (Inl RuntimePanic, \<lparr>r = [], mat = Some \<lparr>Matrix = [[Finite 0]], Names = [''A'']\<rparr>\<rparr>)
   \<and> \<not> fatal RuntimePanic"
  by code_simp

text \<open>
  C1 as stated fails. A first \<^verbatim>\<open>Scan\<close> reads the block of the lines \<^verbatim>\<open>1\<close> and \<^verbatim>\<open>A 5\<close> and
  returns true. A second \<^verbatim>\<open>Scan\<close> reads the header \<^verbatim>\<open>1\<close>, sets \<^verbatim>\<open>s.mat\<close> to a new
  \<open>1 \<times> 1\<close> matrix, finds the end of the stream instead of a row and returns false: the
  matrix held is now the new one, with an empty name and the entry \<open>0\<close>.
\<close>

theorem Scan_failure_replaces_matrix_counterexample:
  "Scan ParseFloat_of_digits (NewScanner (''1'' @ [NL] @ ''A 5'' @ [NL] @ ''1'' @ [NL]))
     = (Inr True, \<lparr>r = ''1'' @ [NL], mat = Some \<lparr>Matrix = [[Finite 5]], Names = [''A'']\<rparr>\<rparr>)
   \<and> Scan ParseFloat_of_digits \<lparr>r = ''1'' @ [NL], mat = Some \<lparr>Matrix = [[Finite 5]], Names = [''A'']\<rparr>\<rparr>
     = (Inr False, \<lparr>r = [], mat = Some \<lparr>Matrix = [[Finite 0]], Names = [[]]\<rparr>\<rparr>)"
  by code_simp

text \<open>
  C1, amended. When the unread stream is made of newline-terminated lines without a
  digit, followed by bytes without a newline, \<^verbatim>\<open>Scan\<close> returns false and
  \<^verbatim>\<open>DistanceMatrix\<close> returns afterwards what it returned before: a \<^verbatim>\<open>Scan\<close> that meets the
  end of the stream before it has read a header neither replaces nor clears the matrix.
\<close>

theorem Scan_eof_before_header_keeps_matrix:
  assumes "\<forall>l\<in>set ls. terminated_line l \<and> \<not> contains_any l num" and "NL \<notin> set final"
    and "r s = concat ls @ final"
  shows "fst (Scan pf s) = Inr False \<and> DistanceMatrix (snd (Scan pf s)) = DistanceMatrix s"
  by (simp add: Scan_eof_before_header[OF assms] DistanceMatrix_def)

theorem Scan_eof_before_header_keeps_matrix_witness:
  "terminated_line (''x'' @ [NL]) \<and> \<not> contains_any (''x'' @ [NL]) num
   \<and> NL \<notin> set ''3''
   \<and> r \<lparr>r = concat [''x'' @ [NL]] @ ''3'', mat = Some \<lparr>Matrix = [[Finite 5]], Names = [''A'']\<rparr>\<rparr>
       = concat [''x'' @ [NL]] @ ''3''
   \<and> fst (Scan ParseFloat_of_digits
            \<lparr>r = concat [''x'' @ [NL]] @ ''3'', mat = Some \<lparr>Matrix = [[Finite 5]], Names = [''A'']\<rparr>\<rparr>)
       = Inr False
   \<and> DistanceMatrix (snd (Scan ParseFloat_of_digits
            \<lparr>r = concat [''x'' @ [NL]] @ ''3'', mat = Some \<lparr>Matrix = [[Finite 5]], Names = [''A'']\<rparr>\<rparr>))
       = DistanceMatrix
            \<lparr>r = concat [''x'' @ [NL]] @ ''3'', mat = Some \<lparr>Matrix = [[Finite 5]], Names = [''A'']\<rparr>\<rparr>"
proof -
  have h0: "terminated_line (''x'' @ [NL]) \<and> \<not> contains_any (''x'' @ [NL]) num"
    by code_simp
  then have h1: "\<forall>l\<in>set [''x'' @ [NL]]. terminated_line l \<and> \<not> contains_any l num"
    by simp
  have h2: "NL \<notin> set ''3''"
    by simp
  have h3: "r \<lparr>r = concat [''x'' @ [NL]] @ ''3'', mat = Some \<lparr>Matrix = [[Finite 5]], Names = [''A'']\<rparr>\<rparr>
       = concat [''x'' @ [NL]] @ ''3''"
    by simp
  show ?thesis
    using Scan_eof_before_header_keeps_matrix[OF h1 h2 h3, of ParseFloat_of_digits] h0 h2 h3
    by blast
qed

text \<open>
  C10. Let the stream begin with newline-terminated lines without a digit. If the bytes
  \<open>final\<close> that follow them hold no newline, \<^verbatim>\<open>Scan\<close> returns false and the scanner keeps
  its matrix, whatever \<open>final\<close> is, a header or not. If a header line for \<open>n\<close> taxa and
  fewer than \<open>n\<close> well-formed rows follow them (\<open>n - 1\<close> rows when the \<open>n\<close>-th is cut), and
  then bytes \<open>final\<close> without a newline in the place of the next row, \<^verbatim>\<open>Scan\<close> returns
  false with all the stream read, and the matrix it leaves is the same for every
  \<open>final\<close>: nothing of that line is kept.
\<close>

theorem Scan_discards_unterminated_line:
  assumes "\<forall>l\<in>set ls. terminated_line l \<and> \<not> contains_any l num"
  shows "(\<forall>final. NL \<notin> set final \<longrightarrow>
            Scan pf (s\<lparr>r := concat ls @ final\<rparr>) = (Inr False, s\<lparr>r := []\<rparr>))
       \<and> (terminated_line hdr \<and> contains_any hdr num \<and> Atoi (TrimRight hdr [CR, NL]) = Some n
            \<and> length rows < nat n \<and> (\<forall>row\<in>set rows. good_row pf (nat n) row)
          \<longrightarrow> (\<exists>d'. \<forall>final. NL \<notin> set final \<longrightarrow>
                  Scan pf (s\<lparr>r := concat ls @ hdr @ concat rows @ final\<rparr>)
                    = (Inr False, \<lparr>r = [], mat = Some d'\<rparr>)))"
proof (intro conjI impI allI)
  fix final assume "NL \<notin> set final"
  then have "Scan pf (s\<lparr>r := concat ls @ final\<rparr>) = (Inr False, s\<lparr>r := concat ls @ final\<rparr>\<lparr>r := []\<rparr>)"
    using assms by (intro Scan_eof_before_header) simp_all
  then show "Scan pf (s\<lparr>r := concat ls @ final\<rparr>) = (Inr False, s\<lparr>r := []\<rparr>)"
    by simp
next
  assume h: "terminated_line hdr \<and> contains_any hdr num \<and> Atoi (TrimRight hdr [CR, NL]) = Some n
            \<and> length rows < nat n \<and> (\<forall>row\<in>set rows. good_row pf (nat n) row)"
  then have "length rows < nat n" by blast
  then have n: "0 \<le> n" by arith
  from NewDistMat_square[OF n] obtain d0 where
    new: "NewDistMat n = Inr d0" and sq: "square (nat n) d0"
    by blast
  have good: "\<forall>row\<in>set rows. good_row pf (nat n) row" using h by blast
  have "length rows < nat n" using h by blast
  then have len: "0 + length rows < nat n" by simp
  have "\<exists>d'. \<forall>final. NL \<notin> set final \<longrightarrow>
          Scan_rows pf (nat n) 0 (concat rows @ final) d0 = (Inr False, [], d')"
    using sq good len by (rule Scan_rows_eof)
  then obtain d' where rows:
    "\<And>final. NL \<notin> set final \<Longrightarrow> Scan_rows pf (nat n) 0 (concat rows @ final) d0 = (Inr False, [], d')"
    by blast
  have "Scan pf (s\<lparr>r := concat ls @ hdr @ concat rows @ final\<rparr>) = (Inr False, \<lparr>r = [], mat = Some d'\<rparr>)"
    if "NL \<notin> set final" for final
  proof -
    have "skip_to_header (ReadString (concat ls @ hdr @ concat rows @ final))
            = (hdr, False, concat rows @ final)"
      using assms h by (intro skip_to_header_found) simp_all
    then show ?thesis
      using h new rows[OF that] by (simp add: Scan_def)
  qed
  then show "\<exists>d'. \<forall>final. NL \<notin> set final \<longrightarrow>
                  Scan pf (s\<lparr>r := concat ls @ hdr @ concat rows @ final\<rparr>)
                    = (Inr False, \<lparr>r = [], mat = Some d'\<rparr>)"
    by blast
qed

theorem Scan_discards_unterminated_line_witness:
  "terminated_line (''hello'' @ [NL]) \<and> \<not> contains_any (''hello'' @ [NL]) num
   \<and> NL \<notin> set ''3''
   \<and> Scan ParseFloat_of_digits (NewScanner []\<lparr>r := concat [''hello'' @ [NL]] @ ''3''\<rparr>)
       = (Inr False, NewScanner []\<lparr>r := []\<rparr>)
   \<and> terminated_line (''2'' @ [CR, NL]) \<and> contains_any (''2'' @ [CR, NL]) num
   \<and> Atoi (TrimRight (''2'' @ [CR, NL]) [CR, NL]) = Some 2
   \<and> length [''A 5 6'' @ [NL]] < nat 2
   \<and> good_row ParseFloat_of_digits (nat 2) (''A 5 6'' @ [NL])
   \<and> NL \<notin> set ''B 7 8''
   \<and> (\<exists>d'. Scan ParseFloat_of_digits
               (NewScanner []\<lparr>r := concat [''hello'' @ [NL]] @ (''2'' @ [CR, NL])
                                      @ concat [''A 5 6'' @ [NL]] @ ''B 7 8''\<rparr>)
             = (Inr False, \<lparr>r = [], mat = Some d'\<rparr>))"
proof -
  have h0: "terminated_line (''hello'' @ [NL]) \<and> \<not> contains_any (''hello'' @ [NL]) num"
    by code_simp
  then have h1: "\<forall>l\<in>set [''hello'' @ [NL]]. terminated_line l \<and> \<not> contains_any l num"
    by simp
  have h2: "NL \<notin> set ''3''" "NL \<notin> set ''B 7 8''"
    by simp_all
  have h3: "terminated_line (''2'' @ [CR, NL]) \<and> contains_any (''2'' @ [CR, NL]) num
    \<and> Atoi (TrimRight (''2'' @ [CR, NL]) [CR, NL]) = Some 2
    \<and> length [''A 5 6'' @ [NL]] < nat 2
    \<and> good_row ParseFloat_of_digits (nat 2) (''A 5 6'' @ [NL])"
    by code_simp
  then have h4: "\<forall>row\<in>set [''A 5 6'' @ [NL]]. good_row ParseFloat_of_digits (nat 2) row"
    by simp
  show ?thesis
    using Scan_discards_unterminated_line[OF h1, of ParseFloat_of_digits "NewScanner []"
        "''2'' @ [CR, NL]" 2 "[''A 5 6'' @ [NL]]"] h0 h2 h3 h4
    by blast
qed

end
